theory Spec2Isabelle
  imports Complex_Main "HOL-Library.Char_ord" "HOL-Library.List_Lexorder" "HOL-Library.Sublist"
    "HOL-Library.Multiset" "HOL-Library.Log_Nat"
begin

section \<open>Values, errors and frames\<close>

text \<open>
  The analytics engine (\<^verbatim>\<open>models/core/analytics_engine.py\<close>) is written against pandas.
  The embedding fixes the part of pandas the engine calls:
  \<^item> a cell is a missing value (NaN), a number or a string. A number is the rational
    value of the int64 or float64 that the frame holds (negative zero is zero). A sum
    is modelled where int64 and float64 addition are both exact; the mean and the
    rounding to two decimals are modelled with the rounding of float64;
  \<^item> a frame is its list of column names and its list of rows, in order; column names
    are distinct and every row has one cell per column (\<open>wf_frame\<close>);
  \<^item> an exception is a value of \<open>error\<close>. \<open>ValueError\<close> carries the message of the two
    \<^verbatim>\<open>raise\<close> statements of the engine, \<open>KeyError\<close> the label that a lookup did not
    find, \<open>IndexError\<close> is Python's list index error, \<open>LibraryError\<close> stands for the
    exception (AttributeError, TypeError, a failed argument check) that Python, pandas,
    numpy or faiss raises when an object does not support the operation called on it;
  \<^item> \<open>NotModelled\<close> marks the calls whose outcome in the library the embedding leaves
    open (arithmetic on string columns, sums that int64 or float64 do not compute
    exactly, distances that float32 does not compute exactly, grouping a Series again,
    an index of dimension 0). No theorem below concludes anything from it.
\<close>

datatype cell = Null | is_Num: Num (num_of: rat) | is_Str: Str (str_of: string)

datatype error = ValueError string | KeyError string | IndexError | LibraryError | NotModelled

record dataframe =
  columns :: "string list"
  rows :: "cell list list"

definition wf_frame :: "dataframe \<Rightarrow> bool" where
  "wf_frame d = (distinct (columns d) \<and> list_all (\<lambda>r. length r = length (columns d)) (rows d))"

fun index_of :: "'a \<Rightarrow> 'a list \<Rightarrow> nat option" where
  "index_of x [] = None"
| "index_of x (y # ys) = (if x = y then Some 0 else map_option Suc (index_of x ys))"

definition cell_at :: "cell list \<Rightarrow> nat \<Rightarrow> cell" where
  "cell_at r i = (if i < length r then r ! i else Null)"

text \<open>\<^verbatim>\<open>df[col]\<close> on a DataFrame: the column as a Series, KeyError when there is none.\<close>

definition getitem :: "dataframe \<Rightarrow> string \<Rightarrow> error + cell list" where
  "getitem d c = (case index_of c (columns d) of
       None \<Rightarrow> Inl (KeyError c)
     | Some i \<Rightarrow> Inr (map (\<lambda>r. cell_at r i) (rows d)))"

section \<open>Binary floating point\<close>

text \<open>
  Rounding of a rational to the nearest number with \<open>p\<close> significant bits, ties to the
  even significand, as IEEE 754 does for a conversion and for the result of one
  operation: \<open>floor_log2\<close> is the binary exponent of a positive rational, \<open>rint\<close>
  rounds to the nearest integer, ties to even (numpy's \<^verbatim>\<open>rint\<close>), and below the
  exponent \<open>emin\<close> the spacing stays that of \<open>emin\<close> (subnormal numbers). \<open>float64\<close>
  and \<open>float32\<close> are the two formats of the libraries. Overflow to infinity is not
  part of the rounding; the callers below exclude it.
\<close>

definition floor_log2 :: "rat \<Rightarrow> int" where
  "floor_log2 x = (let (p, q) = quotient_of x; d = bitlen p - bitlen q
                   in if 2 powi d \<le> x then d else d - 1)"

definition rint :: "rat \<Rightarrow> int" where
  "rint y = (let f = \<lfloor>y\<rfloor>; d = y - of_int f in
     if d < 1 / 2 then f else if 1 / 2 < d then f + 1 else if even f then f else f + 1)"

definition round_to :: "nat \<Rightarrow> int \<Rightarrow> rat \<Rightarrow> rat" where
  "round_to p emin x =
     (if x = 0 then 0
      else let e = max (floor_log2 \<bar>x\<bar>) emin; u = 2 powi (e - int p + 1)
           in of_int (rint (x / u)) * u)"

definition float64 :: "rat \<Rightarrow> rat" where
  "float64 x = round_to 53 (- 1022) x"

definition float32 :: "rat \<Rightarrow> rat" where
  "float32 x = round_to 24 (- 126) x"

definition in_float32_range :: "rat \<Rightarrow> bool" where
  "in_float32_range x = (\<bar>float32 x\<bar> < 2 ^ 128)"

section \<open>The Series operations the engine calls\<close>

fun nums :: "cell list \<Rightarrow> rat list" where
  "nums [] = []"
| "nums (Num r # cs) = r # nums cs"
| "nums (Null # cs) = nums cs"
| "nums (Str s # cs) = nums cs"

fun strs :: "cell list \<Rightarrow> string list" where
  "strs [] = []"
| "strs (Str s # cs) = s # strs cs"
| "strs (Null # cs) = strs cs"
| "strs (Num r # cs) = strs cs"

definition dropna :: "cell list \<Rightarrow> cell list" where
  "dropna cs = filter (\<lambda>c. c \<noteq> Null) cs"

text \<open>\<^verbatim>\<open>Series.unique()\<close>: the distinct values in order of first appearance.\<close>

definition unique :: "'a list \<Rightarrow> 'a list" where
  "unique xs = rev (remdups (rev xs))"

text \<open>
  Rounding of a float64 to two decimals, as \<^verbatim>\<open>round(x, 2)\<close> on a numpy float64 and
  \<^verbatim>\<open>Series.round(2)\<close> do it: the product with 100, \<^verbatim>\<open>rint\<close>, the quotient by 100, each
  a float64 operation.
\<close>

definition round2 :: "rat \<Rightarrow> rat" where
  "round2 x = float64 (of_int (rint (float64 (x * 100))) / 100)"

fun round_cell :: "cell \<Rightarrow> cell" where
  "round_cell (Num r) = Num (round2 r)"
| "round_cell c = c"

text \<open>
  The reductions skip missing values. \<^verbatim>\<open>sum\<close> of no value is 0; \<^verbatim>\<open>mean\<close>, \<^verbatim>\<open>max\<close> and
  \<^verbatim>\<open>min\<close> of no value are NaN. What pandas does with strings in a sum, a mean, a
  maximum or a minimum depends on the column's dtype and on the pandas version, and is
  left open.

  pandas adds an int64 column in int64, which wraps, and a float64 column (any column
  with a missing value) in float64, which rounds, in an order that depends on the
  version. Both give the exact sum when the values are integers whose absolute values
  sum to less than \<open>2 ^ 53\<close>: that is \<open>exact_ints\<close>, and outside it the sum is left open.
  The mean is the float64 quotient of the sum by the float64 count.
\<close>

fun int_cell :: "cell \<Rightarrow> bool" where
  "int_cell Null = True"
| "int_cell (Num r) = (of_int \<lfloor>r\<rfloor> = r)"
| "int_cell (Str s) = False"

definition exact_ints :: "cell list \<Rightarrow> bool" where
  "exact_ints cs = (list_all int_cell cs \<and> sum_list (map abs (nums cs)) < 2 ^ 53
     \<and> length cs < 2 ^ 53)"

definition series_sum :: "cell list \<Rightarrow> error + cell" where
  "series_sum cs = (if exact_ints cs then Inr (Num (sum_list (nums cs))) else Inl NotModelled)"

definition series_mean :: "cell list \<Rightarrow> error + cell" where
  "series_mean cs = (if exact_ints cs
     then Inr (if nums cs = [] then Null
               else Num (float64 (sum_list (nums cs) / of_nat (length (nums cs)))))
     else Inl NotModelled)"

definition series_max :: "cell list \<Rightarrow> error + cell" where
  "series_max cs = (if list_ex is_Str cs then Inl NotModelled
     else Inr (if nums cs = [] then Null else Num (Max (set (nums cs)))))"

definition series_min :: "cell list \<Rightarrow> error + cell" where
  "series_min cs = (if list_ex is_Str cs then Inl NotModelled
     else Inr (if nums cs = [] then Null else Num (Min (set (nums cs)))))"

definition series_nunique :: "cell list \<Rightarrow> cell" where
  "series_nunique cs = Num (of_nat (card (set (dropna cs))))"

text \<open>
  \<^verbatim>\<open>sort_values\<close>: missing values go last; the others are compared with Python's
  \<^verbatim>\<open><\<close>, which orders numbers, orders strings by code point and raises TypeError
  between a number and a string. pandas sorts descending by sorting the reversed
  sequence and reversing the result. The default algorithm of pandas is not stable;
  among equal keys the model keeps the order a stable sort gives.
\<close>

definition order_by :: "('a \<Rightarrow> 'k::linorder) \<Rightarrow> bool \<Rightarrow> 'a list \<Rightarrow> 'a list" where
  "order_by f ascending xs = (if ascending then sort_key f xs else rev (sort_key f (rev xs)))"

definition sort_values :: "('a \<Rightarrow> cell) \<Rightarrow> bool \<Rightarrow> 'a list \<Rightarrow> error + 'a list" where
  "sort_values key ascending xs =
     (let present = filter (\<lambda>x. key x \<noteq> Null) xs;
          missing = filter (\<lambda>x. key x = Null) xs
      in if list_all (\<lambda>x. is_Num (key x)) present
           then Inr (order_by (\<lambda>x. num_of (key x)) ascending present @ missing)
         else if list_all (\<lambda>x. is_Str (key x)) present
           then Inr (order_by (\<lambda>x. str_of (key x)) ascending present @ missing)
         else Inl LibraryError)"

text \<open>\<^verbatim>\<open>head(n)\<close>: the first \<open>n\<close> entries, or all but the last \<open>-n\<close> when \<open>n\<close> is negative.\<close>

definition head :: "int \<Rightarrow> 'a list \<Rightarrow> 'a list" where
  "head n xs = (if 0 \<le> n then take (nat n) xs else take (length xs - nat (- n)) xs)"

section \<open>Grouping\<close>

text \<open>
  \<^verbatim>\<open>df.groupby(col)\<close> keeps the frame and the grouping column. With the defaults
  (\<^verbatim>\<open>sort=True\<close>, \<^verbatim>\<open>dropna=True\<close>) a reduction yields one entry per non-missing key,
  keys sorted: numbers ascending, then strings ascending.
\<close>

definition group_keys :: "cell list \<Rightarrow> cell list" where
  "group_keys ks = map Num (sort (remdups (nums ks))) @ map Str (sort (remdups (strs ks)))"

fun collect :: "('k \<times> (error + 'v)) list \<Rightarrow> error + ('k \<times> 'v) list" where
  "collect [] = Inr []"
| "collect ((k, Inl e) # rest) = Inl e"
| "collect ((k, Inr v) # rest) = (case collect rest of Inl e \<Rightarrow> Inl e | Inr kvs \<Rightarrow> Inr ((k, v) # kvs))"

text \<open>
  \<^verbatim>\<open>GroupBy.head(n)\<close>: the rows of the frame, in their order, that are among the first
  \<open>n\<close> of their group (all but the last \<open>-n\<close> for negative \<open>n\<close>); rows with a missing
  key belong to no group.
\<close>

definition group_head :: "int \<Rightarrow> nat \<Rightarrow> cell list list \<Rightarrow> cell list list" where
  "group_head n i rs =
     (let idx = [0..<length rs]; key = (\<lambda>p. cell_at (rs ! p) i)
      in map (\<lambda>p. rs ! p)
           (filter (\<lambda>p. key p \<noteq> Null \<and> p \<in> set (head n (filter (\<lambda>q. key q = key p) idx))) idx))"

section \<open>Plans\<close>

text \<open>
  A plan is the dictionary the planner parsed. A step is decoded from its dictionary by
  the value of \<^verbatim>\<open>step["op"]\<close>, in the order of the \<^verbatim>\<open>if\<close>/\<^verbatim>\<open>elif\<close> chain of \<^verbatim>\<open>run\<close>:
  \<^item> \<^verbatim>\<open>"filter"\<close>: \<open>Filter (step["column"]) (str(step["value"]))\<close>;
  \<^item> \<^verbatim>\<open>"groupby"\<close>: \<open>GroupBy (step["column"])\<close>;
  \<^item> \<^verbatim>\<open>"sum"\<close>, \<^verbatim>\<open>"avg"\<close>, \<^verbatim>\<open>"max"\<close>, \<^verbatim>\<open>"min"\<close>, \<^verbatim>\<open>"count_unique"\<close>:
    \<open>Aggregate op (step["metric"])\<close>;
  \<^item> \<^verbatim>\<open>"list_unique"\<close>: \<open>ListUnique (step["metric"])\<close>;
  \<^item> \<^verbatim>\<open>"sort"\<close>: \<open>Sort by (step["order"])\<close>, where \<open>by\<close> is \<^verbatim>\<open>step["by"]\<close> when the key is there;
  \<^item> \<^verbatim>\<open>"limit"\<close>: \<open>Limit (step["value"])\<close>;
  \<^item> any other name: \<open>Other name\<close>.
  The fields a branch reads are present in the step, except \<^verbatim>\<open>"by"\<close>, which is optional;
  the value of a \<^verbatim>\<open>limit\<close> step is an integer.
\<close>

datatype agg = Op_sum | Op_avg | Op_max | Op_min | Op_count_unique

datatype step =
    Filter string string
  | GroupBy string
  | Aggregate agg string
  | ListUnique string
  | Sort "string option" string
  | Limit int
  | Other string

record plan =
  ptype :: string
  steps :: "step list"

section \<open>The analytics engine\<close>

record engine =
  df :: dataframe
  schema :: "(string \<times> string) list"

text \<open>
  The value \<^verbatim>\<open>df\<close> of the loop in \<^verbatim>\<open>run\<close> is a DataFrame, a DataFrameGroupBy (the frame
  and the name of the grouping column) or a Series indexed by group key (the name of
  the index and the entries in order).
\<close>

datatype relation =
    Rows dataframe
  | Grouped dataframe string
  | Keyed string "(cell \<times> cell) list"

datatype result =
    NoneResult
  | Scalar cell
  | ListResult "cell list"
  | Mapping "(cell \<times> cell) list"
  | Records "(string \<times> cell) list list"
  | GroupByObject dataframe string

datatype outcome = Continue relation | Return result

definition col :: "engine \<Rightarrow> string \<Rightarrow> error + string" where
  "col eng semantic = (case map_of (schema eng) semantic of
       None \<Rightarrow> Inl (ValueError (''Unknown column: '' @ semantic))
     | Some c \<Rightarrow> Inr c)"

definition lower_char :: "char \<Rightarrow> char" where
  "lower_char c = (let n = (of_char c :: nat) in if 65 \<le> n \<and> n \<le> 90 then char_of (n + 32) else c)"

definition lower :: "string \<Rightarrow> string" where
  "lower s = map lower_char s"

text \<open>
  The five reductions of lines 46-55 and 59-68; \<^verbatim>\<open>avg\<close> rounds the mean to two decimals.
\<close>

fun reduce :: "agg \<Rightarrow> cell list \<Rightarrow> error + cell" where
  "reduce Op_sum cs = series_sum cs"
| "reduce Op_avg cs = (case series_mean cs of Inl e \<Rightarrow> Inl e | Inr m \<Rightarrow> Inr (round_cell m))"
| "reduce Op_max cs = series_max cs"
| "reduce Op_min cs = series_min cs"
| "reduce Op_count_unique cs = Inr (series_nunique cs)"

text \<open>
  \<^verbatim>\<open>filter\<close> (line 29). \<open>astype_str\<close> is the text pandas gives a cell under
  \<^verbatim>\<open>astype(str)\<close>; it is a parameter of the model. On a DataFrameGroupBy the column
  selection has no \<^verbatim>\<open>astype\<close>; on a Series \<^verbatim>\<open>df[col]\<close> looks the label up among the
  group keys and yields a scalar, which has no \<^verbatim>\<open>.str\<close>.
\<close>

fun filter_rel :: "(cell \<Rightarrow> string) \<Rightarrow> string \<Rightarrow> string \<Rightarrow> relation \<Rightarrow> error + outcome" where
  "filter_rel astype_str c val (Rows d) = (case index_of c (columns d) of
       None \<Rightarrow> Inl (KeyError c)
     | Some i \<Rightarrow> Inr (Continue (Rows (d\<lparr>rows :=
           filter (\<lambda>r. lower (astype_str (cell_at r i)) = lower val) (rows d)\<rparr>))))"
| "filter_rel astype_str c val (Grouped d g) =
     (if c \<in> set (columns d) then Inl LibraryError
      else Inl (KeyError (''Column not found: '' @ c)))"
| "filter_rel astype_str c val (Keyed nm kvs) =
     (if Str c \<in> fst ` set kvs then Inl LibraryError else Inl (KeyError c))"

text \<open>
  \<^verbatim>\<open>groupby\<close> (line 36). A DataFrameGroupBy has no \<^verbatim>\<open>groupby\<close>. A Series can be grouped
  by the name of its index, and a Series of one entry by any label; the engine has no
  branch for the resulting object and the model stops there.
\<close>

fun groupby_rel :: "string \<Rightarrow> relation \<Rightarrow> error + outcome" where
  "groupby_rel c (Rows d) =
     (if c \<in> set (columns d) then Inr (Continue (Grouped d c)) else Inl (KeyError c))"
| "groupby_rel c (Grouped d g) = Inl LibraryError"
| "groupby_rel c (Keyed nm kvs) =
     (if c = nm \<or> length kvs = 1 then Inl NotModelled else Inl (KeyError c))"

text \<open>
  The aggregations (lines 41-68). On a DataFrameGroupBy the reduction is taken per
  group and the loop goes on with the Series. Otherwise the engine returns
  \<^verbatim>\<open>df[col].sum()\<close> (and so on) at once: on a DataFrame that is the reduction of the
  column; on a Series \<^verbatim>\<open>df[col]\<close> is the entry whose group key is \<^verbatim>\<open>col\<close>, a numpy
  scalar, on which \<^verbatim>\<open>sum\<close>, \<^verbatim>\<open>max\<close> and \<^verbatim>\<open>min\<close> return the scalar itself, \<^verbatim>\<open>mean\<close> returns
  it as a float64 (modelled below \<open>2 ^ 53\<close>) and \<^verbatim>\<open>nunique\<close> does not exist; a string
  entry has none of these methods. The selection of a missing column of a
  DataFrameGroupBy raises \<^verbatim>\<open>KeyError("Column not found: col")\<close>.
\<close>

fun scalar_reduce :: "agg \<Rightarrow> cell \<Rightarrow> error + cell" where
  "scalar_reduce k (Str s) = Inl LibraryError"
| "scalar_reduce Op_count_unique v = Inl LibraryError"
| "scalar_reduce Op_avg (Num r) =
     (if \<bar>r\<bar> < 2 ^ 53 then Inr (Num (round2 (float64 r))) else Inl NotModelled)"
| "scalar_reduce k v = Inr v"

fun aggregate_rel :: "agg \<Rightarrow> string \<Rightarrow> relation \<Rightarrow> error + outcome" where
  "aggregate_rel k c (Grouped d g) = (case index_of c (columns d) of
       None \<Rightarrow> Inl (KeyError (''Column not found: '' @ c))
     | Some j \<Rightarrow> (case index_of g (columns d) of
         None \<Rightarrow> Inl (KeyError g)
       | Some i \<Rightarrow>
          (case collect (map (\<lambda>key. (key, reduce k (map (\<lambda>r. cell_at r j)
                    (filter (\<lambda>r. cell_at r i = key) (rows d)))))
                  (group_keys (map (\<lambda>r. cell_at r i) (rows d)))) of
             Inl e \<Rightarrow> Inl e
           | Inr kvs \<Rightarrow> Inr (Continue (Keyed g kvs)))))"
| "aggregate_rel k c (Rows d) = (case getitem d c of
       Inl e \<Rightarrow> Inl e
     | Inr cs \<Rightarrow> (case reduce k cs of Inl e \<Rightarrow> Inl e | Inr v \<Rightarrow> Inr (Return (Scalar v))))"
| "aggregate_rel k c (Keyed nm kvs) = (case map_of kvs (Str c) of
       None \<Rightarrow> Inl (KeyError c)
     | Some v \<Rightarrow> (case scalar_reduce k v of Inl e \<Rightarrow> Inl e | Inr w \<Rightarrow> Inr (Return (Scalar w))))"

text \<open>
  \<^verbatim>\<open>list_unique\<close> (lines 73-75): \<^verbatim>\<open>return df[col].dropna().unique().tolist()\<close>. The
  column selection of a DataFrameGroupBy has no method \<^verbatim>\<open>dropna\<close> (the name is its
  boolean option), and neither has the scalar that a label lookup in a Series yields.
\<close>

fun list_unique_rel :: "string \<Rightarrow> relation \<Rightarrow> error + outcome" where
  "list_unique_rel c (Rows d) = (case getitem d c of
       Inl e \<Rightarrow> Inl e
     | Inr cs \<Rightarrow> Inr (Return (ListResult (unique (dropna cs)))))"
| "list_unique_rel c (Grouped d g) =
     (if c \<in> set (columns d) then Inl LibraryError
      else Inl (KeyError (''Column not found: '' @ c)))"
| "list_unique_rel c (Keyed nm kvs) =
     (if Str c \<in> fst ` set kvs then Inl LibraryError else Inl (KeyError c))"

text \<open>
  \<^verbatim>\<open>sort\<close> (lines 80-90). A Series is sorted by its values and \<^verbatim>\<open>step["by"]\<close> is not
  read. Otherwise \<^verbatim>\<open>step["by"]\<close> is read (KeyError when the step has none) and
  resolved, and \<^verbatim>\<open>sort_values(by=col)\<close> is called: a DataFrame sorts its rows by the
  column, a DataFrameGroupBy has no such method.
\<close>

fun sort_rel :: "engine \<Rightarrow> string option \<Rightarrow> bool \<Rightarrow> relation \<Rightarrow> error + outcome" where
  "sort_rel eng by ascending (Keyed nm kvs) = (case sort_values snd ascending kvs of
       Inl e \<Rightarrow> Inl e
     | Inr kvs' \<Rightarrow> Inr (Continue (Keyed nm kvs')))"
| "sort_rel eng None ascending rel = Inl (KeyError ''by'')"
| "sort_rel eng (Some b) ascending rel = (case col eng b of
       Inl e \<Rightarrow> Inl e
     | Inr c \<Rightarrow> (case rel of
         Rows d \<Rightarrow> (case index_of c (columns d) of
             None \<Rightarrow> Inl (KeyError c)
           | Some i \<Rightarrow> (case sort_values (\<lambda>r. cell_at r i) ascending (rows d) of
               Inl e \<Rightarrow> Inl e
             | Inr rs \<Rightarrow> Inr (Continue (Rows (d\<lparr>rows := rs\<rparr>)))))
       | _ \<Rightarrow> Inl LibraryError))"

text \<open>\<^verbatim>\<open>limit\<close> (line 96): \<^verbatim>\<open>df.head(step["value"])\<close> on whatever \<^verbatim>\<open>df\<close> is.\<close>

fun limit_rel :: "int \<Rightarrow> relation \<Rightarrow> relation" where
  "limit_rel n (Rows d) = Rows (d\<lparr>rows := head n (rows d)\<rparr>)"
| "limit_rel n (Keyed nm kvs) = Keyed nm (head n kvs)"
| "limit_rel n (Grouped d g) = (case index_of g (columns d) of
       None \<Rightarrow> Rows (d\<lparr>rows := []\<rparr>)
     | Some i \<Rightarrow> Rows (d\<lparr>rows := group_head n i (rows d)\<rparr>))"

text \<open>One pass of the loop body (lines 21-99).\<close>

fun exec_step :: "(cell \<Rightarrow> string) \<Rightarrow> engine \<Rightarrow> step \<Rightarrow> relation \<Rightarrow> error + outcome" where
  "exec_step astype_str eng (Filter column val) rel = (case col eng column of
       Inl e \<Rightarrow> Inl e
     | Inr c \<Rightarrow> filter_rel astype_str c val rel)"
| "exec_step astype_str eng (GroupBy column) rel = (case col eng column of
       Inl e \<Rightarrow> Inl e
     | Inr c \<Rightarrow> groupby_rel c rel)"
| "exec_step astype_str eng (Aggregate k metric) rel = (case col eng metric of
       Inl e \<Rightarrow> Inl e
     | Inr c \<Rightarrow> aggregate_rel k c rel)"
| "exec_step astype_str eng (ListUnique metric) rel = (case col eng metric of
       Inl e \<Rightarrow> Inl e
     | Inr c \<Rightarrow> list_unique_rel c rel)"
| "exec_step astype_str eng (Sort by order) rel = sort_rel eng by (order = ''asc'') rel"
| "exec_step astype_str eng (Limit n) rel = Inr (Continue (limit_rel n rel))"
| "exec_step astype_str eng (Other op) rel = Inl (ValueError (''Unknown operation: '' @ op))"

text \<open>The loop (line 20): an exception or a \<^verbatim>\<open>return\<close> inside the body ends it.\<close>

fun exec_steps :: "(cell \<Rightarrow> string) \<Rightarrow> engine \<Rightarrow> step list \<Rightarrow> relation \<Rightarrow> error + outcome" where
  "exec_steps astype_str eng [] rel = Inr (Continue rel)"
| "exec_steps astype_str eng (s # ss) rel = (case exec_step astype_str eng s rel of
       Inl e \<Rightarrow> Inl e
     | Inr (Return r) \<Rightarrow> Inr (Return r)
     | Inr (Continue rel') \<Rightarrow> exec_steps astype_str eng ss rel')"

text \<open>The final output (lines 104-109).\<close>

fun final_output :: "relation \<Rightarrow> result" where
  "final_output (Keyed nm kvs) = Mapping kvs"
| "final_output (Rows d) = Records (map (\<lambda>r. zip (columns d) r) (rows d))"
| "final_output (Grouped d g) = GroupByObject d g"

definition run :: "(cell \<Rightarrow> string) \<Rightarrow> engine \<Rightarrow> plan \<Rightarrow> error + result" where
  "run astype_str eng p =
     (if ptype p \<noteq> ''analytics'' then Inr NoneResult
      else case exec_steps astype_str eng (steps p) (Rows (df eng)) of
             Inl e \<Rightarrow> Inl e
           | Inr (Return r) \<Rightarrow> Inr r
           | Inr (Continue rel) \<Rightarrow> Inr (final_output rel))"

text \<open>
  A call of the method on the engine object: what the call yields and the object after
  it. \<^verbatim>\<open>run\<close> works on \<^verbatim>\<open>self.df.copy()\<close> (line 18) and assigns neither \<^verbatim>\<open>self.df\<close> nor
  \<^verbatim>\<open>self.schema\<close>.
\<close>

definition run_call :: "(cell \<Rightarrow> string) \<Rightarrow> engine \<Rightarrow> plan \<Rightarrow> (error + result) \<times> engine" where
  "run_call astype_str eng p = (run astype_str eng p, eng)"

text \<open>
  The semantic key that a step hands to \<^verbatim>\<open>_col\<close> when it runs on a relation: every
  branch that resolves a key does so before anything else; \<^verbatim>\<open>sort\<close> resolves
  \<^verbatim>\<open>step["by"]\<close> unless the relation is a Series; \<^verbatim>\<open>limit\<close> and unknown operations
  resolve nothing.
\<close>

fun resolved_key :: "step \<Rightarrow> relation \<Rightarrow> string option" where
  "resolved_key (Filter column val) rel = Some column"
| "resolved_key (GroupBy column) rel = Some column"
| "resolved_key (Aggregate k metric) rel = Some metric"
| "resolved_key (ListUnique metric) rel = Some metric"
| "resolved_key (Sort by order) (Keyed nm kvs) = None"
| "resolved_key (Sort by order) rel = by"
| "resolved_key (Limit n) rel = None"
| "resolved_key (Other op) rel = None"

section \<open>Schema normalizer\<close>

text \<open>
  \<^verbatim>\<open>models/schema/schema_builder.py\<close>. Strings are byte strings; \<^verbatim>\<open>lower\<close> maps the
  ASCII capitals.
\<close>

definition is_alnum :: "char \<Rightarrow> bool" where
  "is_alnum c = (let n = (of_char c :: nat) in (97 \<le> n \<and> n \<le> 122) \<or> (48 \<le> n \<and> n \<le> 57))"

function collapse :: "string \<Rightarrow> string" where
  "collapse [] = []"
| "collapse (c # cs) = (if is_alnum c then c # collapse cs
     else CHR ''_'' # collapse (dropWhile (\<lambda>x. \<not> is_alnum x) cs))"
  by pat_completeness auto
termination
  by (relation "measure length") (auto simp: less_Suc_eq_le length_dropWhile_le)

definition strip_chars :: "(char \<Rightarrow> bool) \<Rightarrow> string \<Rightarrow> string" where
  "strip_chars P s = dropWhile P (rev (dropWhile P (rev s)))"

definition normalize :: "string \<Rightarrow> string" where
  "normalize c = strip_chars (\<lambda>x. x = CHR ''_'') (collapse (lower c))"

text \<open>Assignment to a dictionary key: an existing key keeps its place.\<close>

fun dict_set :: "'k \<Rightarrow> 'v \<Rightarrow> ('k \<times> 'v) list \<Rightarrow> ('k \<times> 'v) list" where
  "dict_set k v [] = [(k, v)]"
| "dict_set k v (p # ps) = (if fst p = k then (k, v) # ps else p # dict_set k v ps)"

definition build_schema :: "dataframe \<Rightarrow> (string \<times> string) list" where
  "build_schema d = fold (\<lambda>c sch. dict_set (normalize c) c sch) (columns d) []"

section \<open>Vector store and retriever\<close>

text \<open>
  \<^verbatim>\<open>models/rag/vectorstore.py\<close>. The constructor reads the dimension from the first
  embedding and adds all embeddings, cast to float32 (line 9), to a flat L2 index of
  faiss; numpy refuses embeddings of different lengths. A coordinate is the rational
  value of the float; a cast that overflows to infinity is left open.
\<close>

record vectorstore =
  texts :: "string list"
  dim :: nat
  vectors :: "rat list list"

definition new_vectorstore :: "rat list list \<Rightarrow> string list \<Rightarrow> error + vectorstore" where
  "new_vectorstore embeddings txts = (case embeddings of
       [] \<Rightarrow> Inl IndexError
     | e # _ \<Rightarrow>
         if e = [] then Inl NotModelled
         else if \<not> list_all (\<lambda>v. length v = length e) embeddings then Inl LibraryError
         else if \<not> list_all (list_all in_float32_range) embeddings then Inl NotModelled
         else Inr \<lparr>texts = txts, dim = length e, vectors = map (map float32) embeddings\<rparr>)"

definition l2sq :: "rat list \<Rightarrow> rat list \<Rightarrow> rat" where
  "l2sq x y = sum_list (map (\<lambda>(a, b). (a - b) * (a - b)) (zip x y))"

text \<open>
  \<^verbatim>\<open>IndexFlatL2.search(x, k)\<close> for one query: the labels of the \<open>k\<close> stored vectors
  nearest to the query by squared Euclidean distance, nearest first; when the index
  holds fewer than \<open>k\<close> vectors the missing labels are \<open>-1\<close>. Among equal distances
  the model puts the lower label first. faiss computes the distances in float32;
  \<open>exact_l2\<close> says that this arithmetic is exact for a pair of vectors, whatever the
  order of the operations: integer coordinates, and a sum of the squares of
  \<open>\<bar>a\<bar> + \<bar>b\<bar>\<close> below \<open>2 ^ 24\<close>.
\<close>

definition int_coord :: "rat \<Rightarrow> bool" where
  "int_coord x = (of_int \<lfloor>x\<rfloor> = x)"

definition exact_l2 :: "rat list \<Rightarrow> rat list \<Rightarrow> bool" where
  "exact_l2 x y = (list_all int_coord x \<and> list_all int_coord y
     \<and> sum_list (map (\<lambda>(a, b). (\<bar>a\<bar> + \<bar>b\<bar>) * (\<bar>a\<bar> + \<bar>b\<bar>)) (zip x y)) < 2 ^ 24)"

definition index_search :: "rat list list \<Rightarrow> rat list \<Rightarrow> nat \<Rightarrow> int list" where
  "index_search vecs q k =
     (let ranked = sort_key (\<lambda>i. l2sq q (vecs ! i)) [0..<length vecs]
      in map int (take k ranked) @ replicate (k - length ranked) (- 1))"

text \<open>
  Subscription of a Python list by an integer: \<open>i\<close> from \<open>0\<close> to \<open>len - 1\<close> reads from
  the front, \<open>i\<close> from \<open>-len\<close> to \<open>-1\<close> reads from the back, any other \<open>i\<close> raises.
\<close>

definition list_getitem :: "'a list \<Rightarrow> int \<Rightarrow> error + 'a" where
  "list_getitem xs i =
     (if 0 \<le> i \<and> i < int (length xs) then Inr (xs ! nat i)
      else if i < 0 \<and> - i \<le> int (length xs) then Inr (xs ! nat (int (length xs) + i))
      else Inl IndexError)"

text \<open>The comprehension \<^verbatim>\<open>[self.texts[i] for i in I[0]]\<close>.\<close>

fun gather :: "'a list \<Rightarrow> int list \<Rightarrow> error + 'a list" where
  "gather xs [] = Inr []"
| "gather xs (i # is) = (case list_getitem xs i of
       Inl e \<Rightarrow> Inl e
     | Inr x \<Rightarrow> (case gather xs is of Inl e \<Rightarrow> Inl e | Inr ys \<Rightarrow> Inr (x # ys)))"

text \<open>
  \<^verbatim>\<open>VectorStore.search\<close>. The query is cast to float32 (line 12). faiss checks that the
  query has the dimension of the index; what it does for \<open>k \<le> 0\<close>, and the ranking
  where the float32 distances are not exact, are left open.
\<close>

definition search :: "vectorstore \<Rightarrow> rat list \<Rightarrow> int \<Rightarrow> error + string list" where
  "search vs query_embedding k =
     (if length query_embedding \<noteq> dim vs then Inl LibraryError
      else if k \<le> 0 then Inl NotModelled
      else if \<not> list_all in_float32_range query_embedding then Inl NotModelled
      else let x = map float32 query_embedding
           in if \<not> list_all (exact_l2 x) (vectors vs) then Inl NotModelled
              else gather (texts vs) (index_search (vectors vs) x (nat k)))"

text \<open>
  \<^verbatim>\<open>Retriever.get_context\<close> (\<^verbatim>\<open>models/rag/retriever.py\<close>): the question is embedded by
  the external model \<^verbatim>\<open>embed\<close> and searched for with the default \<open>k = 5\<close>.
\<close>

definition get_context ::
    "(string list \<Rightarrow> error + rat list list) \<Rightarrow> vectorstore \<Rightarrow> string \<Rightarrow> error + string list" where
  "get_context embed_texts vs question = (case embed_texts [question] of
       Inl e \<Rightarrow> Inl e
     | Inr [] \<Rightarrow> Inl IndexError
     | Inr (q # _) \<Rightarrow> search vs q 5)"

section \<open>Planner\<close>

text \<open>
  \<^verbatim>\<open>Planner.plan\<close> (\<^verbatim>\<open>models/core/planner.py\<close>), from the response of the language model
  on (lines 14-21). \<open>json_loads\<close> is \<^verbatim>\<open>json.loads\<close>, with \<open>None\<close> when it raises.
  \<^verbatim>\<open>strip()\<close> removes the ASCII whitespace of Python from both ends;
  \<^verbatim>\<open>replace(old, "")\<close> removes the occurrences of \<open>old\<close> found from left to right
  without overlap.
\<close>

datatype json =
    JNull
  | JBool bool
  | JNum rat
  | JStr string
  | JArr "json list"
  | JObj "(string \<times> json) list"

definition is_space :: "char \<Rightarrow> bool" where
  "is_space c = (let n = (of_char c :: nat) in (9 \<le> n \<and> n \<le> 13) \<or> (28 \<le> n \<and> n \<le> 32))"

definition strip :: "string \<Rightarrow> string" where
  "strip s = strip_chars is_space s"

function remove_all :: "'a list \<Rightarrow> 'a list \<Rightarrow> 'a list" where
  "remove_all old [] = []"
| "remove_all old (c # cs) =
     (if old \<noteq> [] \<and> prefix old (c # cs) then remove_all old (drop (length old) (c # cs))
      else c # remove_all old cs)"
  by pat_completeness auto
termination
  by (relation "measure (\<lambda>(old, s). length s)") auto

definition fence :: string where
  "fence = ''```''"

definition clean_response :: "string \<Rightarrow> string" where
  "clean_response response = strip (remove_all fence (remove_all (fence @ ''json'') (strip response)))"

definition parse_plan :: "(string \<Rightarrow> json option) \<Rightarrow> string \<Rightarrow> json" where
  "parse_plan json_loads response = (case json_loads (clean_response response) of
       None \<Rightarrow> JObj [(''type'', JStr ''explain'')]
     | Some j \<Rightarrow> j)"

section \<open>Dataset state\<close>

text \<open>
  \<^verbatim>\<open>app/services/rag_service.py\<close>. The state is the global \<^verbatim>\<open>_rag_state\<close>. What
  \<^verbatim>\<open>initialize_rag_system\<close> gets from outside is the environment: the files that the
  three \<^verbatim>\<open>glob\<close> calls list, what \<^verbatim>\<open>load_excel_files\<close> makes of them, the planner
  prompt read from disk and the embedding model. One call is modelled; calls do not
  interleave.
\<close>

record planner =
  planner_schema :: "(string \<times> string) list"
  planner_prompt :: string

record rag_state =
  state_df :: "dataframe option"
  state_schema :: "(string \<times> string) list option"
  state_planner :: "planner option"
  state_engine :: "engine option"
  state_retriever :: "vectorstore option"
  initialized :: bool
  file_count :: nat

record environment =
  upload_files :: "string list"
  load_excel_files :: "string list \<Rightarrow> error + dataframe"
  read_prompt :: "error + string"
  embed_texts :: "string list \<Rightarrow> error + rat list list"

definition is_initialized :: "rag_state \<Rightarrow> bool" where
  "is_initialized st = (initialized st \<and> state_df st \<noteq> None)"

definition digit_char :: "nat \<Rightarrow> char" where
  "digit_char n = char_of (48 + n)"

function show_nat :: "nat \<Rightarrow> string" where
  "show_nat n = (if n < 10 then [digit_char n] else show_nat (n div 10) @ [digit_char (n mod 10)])"
  by pat_completeness auto
termination
  by (relation "measure id") auto

definition build_schema_docs :: "(string \<times> string) list \<Rightarrow> string list" where
  "build_schema_docs sch = map (\<lambda>(semantic, real).
       semantic @ '' refers to the column '' @ [char_of (39 :: nat)] @ real
         @ [char_of (39 :: nat)] @ '' in the dataset.'') sch"

definition build_dataset_summary :: "dataframe \<Rightarrow> string" where
  "build_dataset_summary d =
     [char_of (10 :: nat)] @ ''This Excel file contains '' @ show_nat (length (rows d)) @ '' rows and ''
       @ show_nat (length (columns d)) @ '' columns.'' @ [char_of (10 :: nat)]
       @ ''It includes business data related to products, vendors, plants, costs, categories, quality ratings, and regions.''
       @ [char_of (10 :: nat)]
       @ ''It is used for supply chain, procurement, and inventory analysis.'' @ [char_of (10 :: nat)]"

text \<open>
  Step 5 of the build (lines 137-151): any exception while the retrieval memory is
  built leaves the retriever \<^verbatim>\<open>None\<close>.
\<close>

definition build_retriever :: "environment \<Rightarrow> (string \<times> string) list \<Rightarrow> dataframe \<Rightarrow> vectorstore option" where
  "build_retriever env sch d =
     (let rag_texts = build_schema_docs sch @ [build_dataset_summary d]
      in case embed_texts env rag_texts of
           Inl e \<Rightarrow> None
         | Inr rag_embeddings \<Rightarrow> (case new_vectorstore rag_embeddings rag_texts of
               Inl e \<Rightarrow> None
             | Inr vs \<Rightarrow> Some vs))"

text \<open>
  \<^verbatim>\<open>initialize_rag_system\<close> (lines 91-161): the returned flag and the state after the
  call. The outer \<^verbatim>\<open>except\<close> sets \<^verbatim>\<open>initialized\<close> to false and keeps what was assigned
  before the exception.
\<close>

definition initialize_rag_system :: "environment \<Rightarrow> bool \<Rightarrow> rag_state \<Rightarrow> bool \<times> rag_state" where
  "initialize_rag_system env force_rebuild st =
     (let excel_files = upload_files env in
      if excel_files = [] then (False, st)
      else if is_initialized st \<and> \<not> force_rebuild \<and> length excel_files = file_count st
        then (True, st)
      else case load_excel_files env excel_files of
          Inl e \<Rightarrow> (False, st\<lparr>initialized := False\<rparr>)
        | Inr d \<Rightarrow>
           (let sch = build_schema d;
                st2 = st\<lparr>state_df := Some d, state_schema := Some sch\<rparr>
            in case read_prompt env of
                Inl e \<Rightarrow> (False, st2\<lparr>initialized := False\<rparr>)
              | Inr prompt \<Rightarrow>
                 (True, st2\<lparr>state_planner := Some \<lparr>planner_schema = sch, planner_prompt = prompt\<rparr>,
                            state_engine := Some \<lparr>df = d, schema = sch\<rparr>,
                            state_retriever := build_retriever env sch d,
                            file_count := length excel_files,
                            initialized := True\<rparr>)))"

section \<open>The example dataset\<close>

definition sales_frame :: dataframe where
  "sales_frame = \<lparr>columns = [''Region'', ''Sales''],
     rows = [[Str ''North'', Num 100], [Str ''South'', Num 150], [Str ''North'', Num 20]]\<rparr>"

definition sales_engine :: engine where
  "sales_engine = \<lparr>df = sales_frame, schema = [(''region'', ''Region''), (''sales'', ''Sales'')]\<rparr>"

text \<open>The same schema over a frame in which a region is itself called \<open>Sales\<close>.\<close>

definition labelled_engine :: engine where
  "labelled_engine = \<lparr>df = \<lparr>columns = [''Region'', ''Sales''],
       rows = [[Str ''Sales'', Num 100], [Str ''South'', Num 150]]\<rparr>,
     schema = [(''region'', ''Region''), (''sales'', ''Sales'')]\<rparr>"


definition top_region_plan :: plan where
  "top_region_plan = \<lparr>ptype = ''analytics'',
     steps = [GroupBy ''region'', Aggregate Op_sum ''sales'', Sort None ''desc'', Limit 1]\<rparr>"

definition two_store :: vectorstore where
  "two_store = \<lparr>texts = [''a'', ''b''], dim = 2, vectors = [[0, 0], [3, 4]]\<rparr>"

text \<open>A state after a successful build, and an environment whose upload directory is empty.\<close>

definition ready_state :: rag_state where
  "ready_state = \<lparr>state_df = Some sales_frame, state_schema = Some (schema sales_engine),
     state_planner = Some \<lparr>planner_schema = schema sales_engine, planner_prompt = ''{schema}''\<rparr>,
     state_engine = Some sales_engine, state_retriever = Some two_store,
     initialized = True, file_count = 1\<rparr>"

definition empty_uploads :: environment where
  "empty_uploads = \<lparr>upload_files = [],
     load_excel_files = (\<lambda>paths. Inl (ValueError ''No data found in uploaded Excel files.'')),
     read_prompt = Inr ''{schema}'',
     embed_texts = (\<lambda>txts. Inr (map (\<lambda>t. [0, 0]) txts))\<rparr>"

section \<open>Properties of the floating-point model\<close>

lemma nat_power_powi: "0 < b \<Longrightarrow> (2::rat) ^ nat (b - 1) = 2 powi (b - 1)"
  by (simp add: power_int_def)

lemma floor_log2_bounds:
  assumes "0 < x"
  shows "2 powi (floor_log2 x) \<le> x \<and> x < 2 powi (floor_log2 x + 1)"
proof -
  obtain p q where pq: "quotient_of x = (p, q)" by (cases "quotient_of x")
  then have q: "0 < q" by (rule quotient_of_denom_pos)
  have x: "x = of_int p / of_int q" using pq by (rule quotient_of_div)
  with assms q have p: "0 < p" by (simp add: zero_less_divide_iff)
  let ?bp = "bitlen p" and ?bq = "bitlen q"
  let ?d = "?bp - ?bq"
  from bitlen_bounds [OF p] have p1: "2 ^ nat (?bp - 1) \<le> p" and p2: "p < 2 ^ nat ?bp" by auto
  from bitlen_bounds [OF q] have q1: "2 ^ nat (?bq - 1) \<le> q" and q2: "q < 2 ^ nat ?bq" by auto
  have bp: "1 \<le> ?bp" using p by (auto simp: bitlen_alt_def)
  have bq: "1 \<le> ?bq" using q by (auto simp: bitlen_alt_def)
  have P1: "(2::rat) powi (?bp - 1) \<le> of_int p"
  proof -
    have "(of_int (2 ^ nat (?bp - 1)) :: rat) \<le> of_int p" using p1 by (simp only: of_int_le_iff)
    then show ?thesis using bp by (simp add: power_int_def)
  qed
  have P2: "(of_int p :: rat) < 2 powi ?bp"
  proof -
    have "(of_int p :: rat) < of_int (2 ^ nat ?bp)" using p2 by (simp only: of_int_less_iff)
    then show ?thesis using bp by (simp add: power_int_def)
  qed
  have Q1: "(2::rat) powi (?bq - 1) \<le> of_int q"
  proof -
    have "(of_int (2 ^ nat (?bq - 1)) :: rat) \<le> of_int q" using q1 by (simp only: of_int_le_iff)
    then show ?thesis using bq by (simp add: power_int_def)
  qed
  have Q2: "(of_int q :: rat) < 2 powi ?bq"
  proof -
    have "(of_int q :: rat) < of_int (2 ^ nat ?bq)" using q2 by (simp only: of_int_less_iff)
    then show ?thesis using bq by (simp add: power_int_def)
  qed
  have qpos: "(0::rat) < of_int q" using q by simp
  have up: "x < 2 powi (?d + 1)"
  proof -
    have "of_int p < (2::rat) powi ?bp" by (rule P2)
    also have "\<dots> = 2 powi (?d + 1) * 2 powi (?bq - 1)"
      by (simp add: power_int_add [symmetric])
    also have "\<dots> \<le> 2 powi (?d + 1) * of_int q"
      using Q1 by (simp add: mult_left_mono)
    finally show ?thesis using qpos by (simp add: x pos_divide_less_eq)
  qed
  have lo: "2 powi (?d - 1) < x"
  proof -
    have "(2::rat) powi (?d - 1) * of_int q < 2 powi (?d - 1) * 2 powi ?bq"
      using Q2 by (simp add: mult_strict_left_mono)
    also have "\<dots> = 2 powi (?bp - 1)"
      by (simp add: power_int_add [symmetric])
    also have "\<dots> \<le> of_int p" by (rule P1)
    finally show ?thesis using qpos by (simp add: x pos_less_divide_eq)
  qed
  show ?thesis
  proof (cases "2 powi ?d \<le> x")
    case True
    then have "floor_log2 x = ?d" by (simp add: floor_log2_def pq)
    with True up show ?thesis by simp
  next
    case False
    then have "floor_log2 x = ?d - 1" by (simp add: floor_log2_def pq)
    with False lo show ?thesis by simp
  qed
qed

lemma floor_log2_unique:
  assumes "0 < x" and "2 powi e \<le> x" and "x < 2 powi (e + 1)"
  shows "floor_log2 x = e"
proof -
  from floor_log2_bounds [OF assms(1)]
  have a: "2 powi (floor_log2 x) \<le> x" and b: "x < 2 powi (floor_log2 x + 1)" by auto
  have "(2::rat) powi e < 2 powi (floor_log2 x + 1)" using assms(2) b by simp
  then have 1: "e < floor_log2 x + 1"
    by (smt (verit) power_int_increasing not_less_iff_gr_or_eq one_le_numeral linorder_not_less)
  have "(2::rat) powi (floor_log2 x) < 2 powi (e + 1)" using a assms(3) by simp
  then have 2: "floor_log2 x < e + 1"
    by (smt (verit) power_int_increasing not_less_iff_gr_or_eq one_le_numeral linorder_not_less)
  from 1 2 show ?thesis by simp
qed


lemma rint_eq:
  assumes "of_int k - 1 / 2 < y" and "y < of_int k + 1 / 2"
  shows "rint y = k"
proof -
  have f: "of_int \<lfloor>y\<rfloor> \<le> y" "y < of_int \<lfloor>y\<rfloor> + 1" by linarith+
  consider "\<lfloor>y\<rfloor> = k" | "\<lfloor>y\<rfloor> = k - 1"
  proof -
    have "y < of_int (k + 1)" using assms by simp
    then have "\<lfloor>y\<rfloor> < k + 1" by (simp only: floor_less_iff)
    moreover have "of_int (k - 1) \<le> y" using assms by simp
    then have "k - 1 \<le> \<lfloor>y\<rfloor>" by (simp only: le_floor_iff)
    ultimately have "\<lfloor>y\<rfloor> = k \<or> \<lfloor>y\<rfloor> = k - 1" by linarith
    then show ?thesis using that by blast
  qed
  then show ?thesis
    using assms by cases (auto simp: rint_def Let_def)
qed



lemma round_to_eval:
  assumes "x \<noteq> 0" and "2 powi e \<le> \<bar>x\<bar>" and "\<bar>x\<bar> < 2 powi (e + 1)" and "emin \<le> e"
  shows "round_to p emin x = of_int (rint (x / 2 powi (e - int p + 1))) * 2 powi (e - int p + 1)"
proof -
  from assms(1) have "0 < \<bar>x\<bar>" by simp
  from floor_log2_unique [OF this assms(2,3)] assms(1,4) show ?thesis
    by (simp add: round_to_def Let_def max_def)
qed

lemma round_to_value:
  assumes "x \<noteq> 0" and "2 powi e \<le> \<bar>x\<bar>" and "\<bar>x\<bar> < 2 powi (e + 1)" and "emin \<le> e"
    and "(of_int k - 1 / 2) * 2 powi (e - int p + 1) < x"
    and "x < (of_int k + 1 / 2) * 2 powi (e - int p + 1)"
  shows "round_to p emin x = of_int k * 2 powi (e - int p + 1)"
proof -
  let ?u = "(2::rat) powi (e - int p + 1)"
  have u: "0 < ?u" by simp
  have "of_int k - 1 / 2 < x / ?u" using assms(5) u by (simp add: pos_less_divide_eq)
  moreover have "x / ?u < of_int k + 1 / 2" using assms(6) u by (simp add: pos_divide_less_eq)
  ultimately have "rint (x / ?u) = k" by (rule rint_eq)
  with round_to_eval [OF assms(1-4), of p] show ?thesis by simp
qed















lemma float32_3: "float32 (3) = 3"
proof -
  have "round_to 24 (- 126) (3) = of_int 12582912 * 2 powi (1 - int 24 + 1)"
    by (rule round_to_value) simp_all
  then show ?thesis by (simp add: float32_def)
qed

lemma float32_4: "float32 (4) = 4"
proof -
  have "round_to 24 (- 126) (4) = of_int 8388608 * 2 powi (2 - int 24 + 1)"
    by (rule round_to_value) simp_all
  then show ?thesis by (simp add: float32_def)
qed

lemma float32_1_10: "float32 (1 / 10) = 13421773 / 134217728"
proof -
  have "round_to 24 (- 126) (1 / 10) = of_int 13421773 * 2 powi ((- 4) - int 24 + 1)"
    by (rule round_to_value) simp_all
  then show ?thesis by (simp add: float32_def)
qed

lemma float32_0: "float32 0 = 0"
  by (simp add: float32_def round_to_def)




section \<open>Properties of the schema normalizer\<close>

text \<open>
  The two examples of the specification, and the schema of the example dataset as
  \<^verbatim>\<open>build_schema\<close> builds it.
\<close>

lemma normalize_examples:
  "normalize ''Unit Cost ($)'' = ''unit_cost'' \<and> normalize ''  Vendor-ID '' = ''vendor_id''"
  by code_simp

lemma build_schema_sales: "build_schema sales_frame = schema sales_engine"
  by code_simp

section \<open>Properties of the analytics engine\<close>

lemma set_dropna: "set (dropna cs) = set cs - {Null}"
  by (auto simp: dropna_def)

lemma exec_steps_append:
  "exec_steps a eng pre rel = Inr (Continue rel') \<Longrightarrow>
   exec_steps a eng (pre @ ss) rel = exec_steps a eng ss rel'"
proof (induction pre arbitrary: rel)
  case Nil
  then show ?case by simp
next
  case (Cons s pre)
  then show ?case
    by (auto split: sum.splits outcome.splits)
qed

lemma sort_values_descending:
  assumes "list_all (\<lambda>x. \<not> is_Str (key x)) xs"
  shows "\<exists>ys ds m. sort_values key False xs = Inr ys \<and> mset ys = mset xs
           \<and> map key ys = map Num ds @ replicate m Null \<and> sorted (rev ds)"
proof -
  let ?present = "filter (\<lambda>x. key x \<noteq> Null) xs"
  let ?missing = "filter (\<lambda>x. key x = Null) xs"
  let ?f = "\<lambda>x. num_of (key x)"
  let ?sorted = "sort_key ?f (rev ?present)"
  have num: "list_all (\<lambda>x. is_Num (key x)) ?present"
    using assms by (induction xs) (auto intro: cell.exhaust_disc)
  then have res: "sort_values key False xs = Inr (rev ?sorted @ ?missing)"
    by (simp add: sort_values_def order_by_def)
  have m1: "mset (rev ?sorted @ ?missing) = mset xs"
    by (induction xs) auto
  have all_num: "\<forall>x \<in> set (rev ?sorted). key x = Num (?f x)"
    using num by (auto simp: list_all_iff)
  then have k1: "map key (rev ?sorted) = map Num (rev (map ?f ?sorted))"
    by (simp add: rev_map)
  have k2: "map key ?missing = replicate (length ?missing) Null"
    by (induction xs) auto
  have s: "sorted (rev (rev (map ?f ?sorted)))"
    by simp
  show ?thesis
    using res m1 k1 k2 s by (metis map_append)
qed

lemma distinct_unique: "distinct (unique xs)"
  by (simp add: unique_def)

lemma set_unique: "set (unique xs) = set xs"
  by (simp add: unique_def)

lemma subseq_remdups: "subseq (remdups xs) xs"
  by (induction xs) (auto intro: subseq_Cons')

lemma subseq_rev: "subseq xs ys \<Longrightarrow> subseq (rev xs) (rev ys)"
  by (induction rule: list_emb.induct) (auto intro: subseq_rev_drop_many list_emb_append_mono)

lemma subseq_unique: "subseq (unique xs) xs"
  using subseq_rev [OF subseq_remdups [of "rev xs"]] by (simp add: unique_def)

lemma subseq_dropna: "subseq (dropna cs) cs"
  by (simp add: dropna_def)

lemma index_of_mem: "index_of x xs = Some i \<Longrightarrow> x \<in> set xs"
  by (induction xs arbitrary: i) (auto split: if_splits)

lemma resolved_key_unknown:
  "resolved_key s rel = Some k \<Longrightarrow> map_of (schema eng) k = None \<Longrightarrow>
   exec_step astype_str eng s rel = Inl (ValueError (''Unknown column: '' @ k))"
  by (cases s; cases rel) (auto simp: col_def)

lemmas eval_defs = run_def sales_engine_def sales_frame_def col_def
      group_keys_def cell_at_def series_sum_def exact_ints_def sort_values_def order_by_def
      head_def getitem_def


lemma int_cells_no_str: "list_all int_cell cs \<Longrightarrow> \<not> list_ex is_Str cs"
  by (induction cs) (auto elim: int_cell.elims)





text \<open>
  Claim C2. On the dataset with the rows (North, 100), (South, 150), (North, 20), the
  plan that groups by region, sums the sales, sorts descending and keeps one entry
  returns the mapping of South to 150.
\<close>

theorem top_region_is_south:
  "run astype_str sales_engine top_region_plan = Inr (Mapping [(Str ''South'', Num 150)])"
  by (simp add: run_def top_region_plan_def sales_engine_def sales_frame_def col_def
      group_keys_def cell_at_def series_sum_def exact_ints_def sort_values_def order_by_def
      head_def)

text \<open>
  Claim C3, as stated: an aggregation applied to a Series that an earlier aggregation
  produced fails with the error \<^verbatim>\<open>cannot aggregate an already-reduced relation\<close>. The
  engine has no such check. On the example dataset the second aggregation fails with
  the KeyError of the label lookup; on a dataset in which a region is called
  \<open>Sales\<close> it does not fail at all and returns the entry of that region.
\<close>

theorem aggregate_on_keyed_counterexample:
  "run (\<lambda>c. []) sales_engine \<lparr>ptype = ''analytics'',
       steps = [GroupBy ''region'', Aggregate Op_sum ''sales'', Aggregate Op_sum ''sales'']\<rparr>
     = Inl (KeyError ''Sales'')
   \<and> run (\<lambda>c. []) labelled_engine \<lparr>ptype = ''analytics'',
       steps = [GroupBy ''region'', Aggregate Op_sum ''sales'', Aggregate Op_sum ''sales'']\<rparr>
     = Inr (Scalar (Num 100))"
  by (simp add: eval_defs labelled_engine_def)

text \<open>
  Claim C3, amended: on a Series produced by an aggregation after a grouping, a further
  aggregation whose metric the schema maps to a name that is not among the group keys
  fails with the KeyError of that name, and \<^verbatim>\<open>run\<close> raises it whatever steps follow.
\<close>

theorem aggregate_on_keyed_key_error:
  assumes "exec_steps astype_str eng pre (Rows (df eng)) = Inr (Continue (Keyed nm kvs))"
    and "map_of (schema eng) metric = Some c"
    and "Str c \<notin> fst ` set kvs"
  shows "exec_step astype_str eng (Aggregate k metric) (Keyed nm kvs) = Inl (KeyError c)
       \<and> run astype_str eng \<lparr>ptype = ''analytics'', steps = pre @ Aggregate k metric # rest\<rparr>
           = Inl (KeyError c)"
proof -
  from assms(3) have "map_of kvs (Str c) = None"
    by (simp add: map_of_eq_None_iff)
  with assms(2) have step: "exec_step astype_str eng (Aggregate k metric) (Keyed nm kvs) = Inl (KeyError c)"
    by (simp add: col_def)
  then show ?thesis
    using exec_steps_append [OF assms(1)] by (simp add: run_def)
qed

theorem aggregate_on_keyed_key_error_witness:
  "exec_steps (\<lambda>c. []) sales_engine [GroupBy ''region'', Aggregate Op_max ''sales''] (Rows (df sales_engine))
     = Inr (Continue (Keyed ''Region'' [(Str ''North'', Num 100), (Str ''South'', Num 150)]))
   \<and> map_of (schema sales_engine) ''sales'' = Some ''Sales''
   \<and> Str ''Sales'' \<notin> fst ` set [(Str ''North'', Num 100), (Str ''South'', Num 150)]
   \<and> run (\<lambda>c. []) sales_engine \<lparr>ptype = ''analytics'',
        steps = [GroupBy ''region'', Aggregate Op_max ''sales'', Aggregate Op_avg ''sales'', Limit 1]\<rparr>
       = Inl (KeyError ''Sales'')"
proof -
  have h1: "exec_steps (\<lambda>c. []) sales_engine [GroupBy ''region'', Aggregate Op_max ''sales''] (Rows (df sales_engine))
     = Inr (Continue (Keyed ''Region'' [(Str ''North'', Num 100), (Str ''South'', Num 150)]))"
    by (simp add: eval_defs series_max_def)
  have h2: "map_of (schema sales_engine) ''sales'' = Some ''Sales''"
    by (simp add: sales_engine_def)
  have h3: "Str ''Sales'' \<notin> fst ` set [(Str ''North'', Num 100), (Str ''South'', Num 150)]"
    by simp
  from aggregate_on_keyed_key_error [OF h1 h2 h3, of Op_avg "[Limit 1]"] h1 h2 h3
  show ?thesis by simp
qed

text \<open>
  Claim C4, as stated: \<^verbatim>\<open>list_unique\<close> returns the distinct values whatever the working
  relation is. After a grouping, and after a grouping and an aggregation, the step
  raises instead.
\<close>

theorem list_unique_on_grouped_counterexample:
  "run (\<lambda>c. []) sales_engine \<lparr>ptype = ''analytics'',
       steps = [GroupBy ''region'', ListUnique ''sales'']\<rparr>
     = Inl LibraryError
   \<and> run (\<lambda>c. []) sales_engine \<lparr>ptype = ''analytics'',
       steps = [GroupBy ''region'', Aggregate Op_sum ''sales'', ListUnique ''sales'']\<rparr>
     = Inl (KeyError ''Sales'')"
  by (simp add: eval_defs)

text \<open>
  Claim C4, amended: on rows, \<^verbatim>\<open>list_unique\<close> of a metric that the schema maps to a
  column of the frame returns the distinct non-missing values of the column in the
  order of the rows and ends the pipeline, so that the steps after it have no effect;
  on a grouped or a reduced relation the step raises an error (the missing method, or
  the KeyError of the label lookup).
\<close>

theorem list_unique_on_rows:
  assumes "map_of (schema eng) metric = Some c"
    and "wf_frame d"
    and "getitem d c = Inr cs"
  shows "exec_steps astype_str eng (ListUnique metric # rest) (Rows d)
           = Inr (Return (ListResult (unique (dropna cs))))
       \<and> distinct (unique (dropna cs))
       \<and> set (unique (dropna cs)) = set cs - {Null}
       \<and> subseq (unique (dropna cs)) cs
       \<and> exec_steps astype_str eng (ListUnique metric # rest) (Grouped d g) = Inl LibraryError
       \<and> exec_steps astype_str eng (ListUnique metric # rest) (Keyed nm kvs)
           = (if Str c \<in> fst ` set kvs then Inl LibraryError else Inl (KeyError c))"
proof -
  have "subseq (unique (dropna cs)) (dropna cs)"
    by (rule subseq_unique)
  then have s: "subseq (unique (dropna cs)) cs"
    using subseq_dropna subseq_order.order_trans by blast
  from assms(3) have "c \<in> set (columns d)"
    by (auto simp: getitem_def split: option.splits dest: index_of_mem)
  with s show ?thesis
    using assms by (simp add: col_def distinct_unique set_unique set_dropna)
qed

theorem list_unique_on_rows_witness:
  "map_of (schema sales_engine) ''region'' = Some ''Region''
   \<and> wf_frame sales_frame
   \<and> getitem sales_frame ''Region'' = Inr [Str ''North'', Str ''South'', Str ''North'']
   \<and> exec_steps (\<lambda>c. []) sales_engine [ListUnique ''region'', Sort None ''desc'', Limit 1] (Rows sales_frame)
       = Inr (Return (ListResult [Str ''North'', Str ''South'']))"
proof -
  have h1: "map_of (schema sales_engine) ''region'' = Some ''Region''"
    by (simp add: sales_engine_def)
  have h2: "wf_frame sales_frame"
    by (simp add: sales_frame_def wf_frame_def)
  have h3: "getitem sales_frame ''Region'' = Inr [Str ''North'', Str ''South'', Str ''North'']"
    by (simp add: sales_frame_def getitem_def cell_at_def)
  have u: "unique (dropna [Str ''North'', Str ''South'', Str ''North'']) = [Str ''North'', Str ''South'']"
    by (simp add: unique_def dropna_def)
  from list_unique_on_rows [OF h1 h2 h3, of "\<lambda>c. []" "[Sort None ''desc'', Limit 1]"] h1 h2 h3 u
  show ?thesis by simp
qed

text \<open>
  Claim C5, as stated: every analytics plan that contains a step with a semantic key
  absent from the schema raises the unknown-column error. A step after an aggregation
  on rows is never run, and a sort of a Series does not read its \<^verbatim>\<open>by\<close>: both plans
  below name the absent key \<open>bogus\<close> and return a value.
\<close>

theorem unknown_key_counterexample:
  "map_of (schema sales_engine) ''bogus'' = None
   \<and> run (\<lambda>c. []) sales_engine \<lparr>ptype = ''analytics'',
       steps = [Aggregate Op_sum ''sales'', Filter ''bogus'' ''x'']\<rparr>
     = Inr (Scalar (Num 270))
   \<and> run (\<lambda>c. []) sales_engine \<lparr>ptype = ''analytics'',
       steps = [GroupBy ''region'', Aggregate Op_sum ''sales'', Sort (Some ''bogus'') ''desc'']\<rparr>
     = Inr (Mapping [(Str ''South'', Num 150), (Str ''North'', Num 120)])"
  by (simp add: eval_defs)

text \<open>
  Claim C5, amended: when the steps before it run without error and without ending the
  pipeline, a step that resolves a semantic key absent from the schema makes \<^verbatim>\<open>run\<close>
  raise \<^verbatim>\<open>ValueError("Unknown column: key")\<close>, and the engine object is as before the
  call.
\<close>

theorem unknown_key_raises:
  assumes "exec_steps astype_str eng pre (Rows (df eng)) = Inr (Continue rel)"
    and "resolved_key s rel = Some k"
    and "map_of (schema eng) k = None"
  shows "run_call astype_str eng \<lparr>ptype = ''analytics'', steps = pre @ s # post\<rparr>
           = (Inl (ValueError (''Unknown column: '' @ k)), eng)"
  using exec_steps_append [OF assms(1)] resolved_key_unknown [OF assms(2,3)]
  by (simp add: run_call_def run_def)

theorem unknown_key_raises_witness:
  "exec_steps (\<lambda>c. []) sales_engine [Limit 2] (Rows (df sales_engine))
     = Inr (Continue (Rows \<lparr>columns = [''Region'', ''Sales''],
          rows = [[Str ''North'', Num 100], [Str ''South'', Num 150]]\<rparr>))
   \<and> resolved_key (GroupBy ''bogus'') (Rows \<lparr>columns = [''Region'', ''Sales''],
          rows = [[Str ''North'', Num 100], [Str ''South'', Num 150]]\<rparr>) = Some ''bogus''
   \<and> map_of (schema sales_engine) ''bogus'' = None
   \<and> run_call (\<lambda>c. []) sales_engine \<lparr>ptype = ''analytics'',
        steps = [Limit 2, GroupBy ''bogus'', Aggregate Op_sum ''sales'']\<rparr>
       = (Inl (ValueError ''Unknown column: bogus''), sales_engine)"
proof -
  have h1: "exec_steps (\<lambda>c. []) sales_engine [Limit 2] (Rows (df sales_engine))
     = Inr (Continue (Rows \<lparr>columns = [''Region'', ''Sales''],
          rows = [[Str ''North'', Num 100], [Str ''South'', Num 150]]\<rparr>))"
    by (simp add: eval_defs)
  have h2: "resolved_key (GroupBy ''bogus'') (Rows \<lparr>columns = [''Region'', ''Sales''],
          rows = [[Str ''North'', Num 100], [Str ''South'', Num 150]]\<rparr>) = Some ''bogus''"
    by simp
  have h3: "map_of (schema sales_engine) ''bogus'' = None"
    by (simp add: sales_engine_def)
  from unknown_key_raises [OF h1 h2 h3, of "[Aggregate Op_sum ''sales'']"] h1 h2 h3
  show ?thesis by simp
qed

text \<open>
  Claim C10. A sort step whose order is any string other than \<^verbatim>\<open>asc\<close> does what the
  step with order \<^verbatim>\<open>desc\<close> does, on every relation, and the order raises no error: on a
  Series without string values, and on rows by a column without string values, the
  step succeeds with a permutation in which the values descend and the missing values
  come last.
\<close>

theorem sort_order_other_than_asc_is_descending:
  assumes "order \<noteq> ''asc''"
  shows "exec_step astype_str eng (Sort by order) rel = exec_step astype_str eng (Sort by ''desc'') rel
       \<and> (list_all (\<lambda>kv. \<not> is_Str (snd kv)) kvs \<longrightarrow>
            (\<exists>kvs' ds m. exec_step astype_str eng (Sort by order) (Keyed nm kvs)
                            = Inr (Continue (Keyed nm kvs'))
               \<and> mset kvs' = mset kvs
               \<and> map snd kvs' = map Num ds @ replicate m Null \<and> sorted (rev ds)))
       \<and> (map_of (schema eng) b = Some c \<and> index_of c (columns d) = Some i
            \<and> list_all (\<lambda>r. \<not> is_Str (cell_at r i)) (rows d) \<longrightarrow>
            (\<exists>rs ds m. exec_step astype_str eng (Sort (Some b) order) (Rows d)
                            = Inr (Continue (Rows (d\<lparr>rows := rs\<rparr>)))
               \<and> mset rs = mset (rows d)
               \<and> map (\<lambda>r. cell_at r i) rs = map Num ds @ replicate m Null \<and> sorted (rev ds)))"
proof (intro conjI impI)
  show "exec_step astype_str eng (Sort by order) rel = exec_step astype_str eng (Sort by ''desc'') rel"
    using assms by simp
next
  assume "list_all (\<lambda>kv. \<not> is_Str (snd kv)) kvs"
  from sort_values_descending [OF this] obtain ys ds m where
    "sort_values snd False kvs = Inr ys" "mset ys = mset kvs"
    "map snd ys = map Num ds @ replicate m Null" "sorted (rev ds)"
    by blast
  then show "\<exists>kvs' ds m. exec_step astype_str eng (Sort by order) (Keyed nm kvs)
                            = Inr (Continue (Keyed nm kvs'))
               \<and> mset kvs' = mset kvs
               \<and> map snd kvs' = map Num ds @ replicate m Null \<and> sorted (rev ds)"
    using assms by auto
next
  assume h: "map_of (schema eng) b = Some c \<and> index_of c (columns d) = Some i
            \<and> list_all (\<lambda>r. \<not> is_Str (cell_at r i)) (rows d)"
  then have "list_all (\<lambda>r. \<not> is_Str (cell_at r i)) (rows d)" by simp
  from sort_values_descending [OF this] obtain ys ds m where
    "sort_values (\<lambda>r. cell_at r i) False (rows d) = Inr ys" "mset ys = mset (rows d)"
    "map (\<lambda>r. cell_at r i) ys = map Num ds @ replicate m Null" "sorted (rev ds)"
    by blast
  then show "\<exists>rs ds m. exec_step astype_str eng (Sort (Some b) order) (Rows d)
                            = Inr (Continue (Rows (d\<lparr>rows := rs\<rparr>)))
               \<and> mset rs = mset (rows d)
               \<and> map (\<lambda>r. cell_at r i) rs = map Num ds @ replicate m Null \<and> sorted (rev ds)"
    using assms h by (auto simp: col_def)
qed

theorem sort_order_other_than_asc_is_descending_witness:
  "''descending'' \<noteq> ''asc''
   \<and> list_all (\<lambda>kv. \<not> is_Str (snd kv)) [(Str ''North'', Num 120), (Str ''South'', Num 150)]
   \<and> map_of (schema sales_engine) ''sales'' = Some ''Sales''
   \<and> index_of ''Sales'' (columns sales_frame) = Some 1
   \<and> list_all (\<lambda>r. \<not> is_Str (cell_at r 1)) (rows sales_frame)
   \<and> exec_step (\<lambda>c. []) sales_engine (Sort None ''descending'')
        (Keyed ''Region'' [(Str ''North'', Num 120), (Str ''South'', Num 150)])
       = Inr (Continue (Keyed ''Region'' [(Str ''South'', Num 150), (Str ''North'', Num 120)]))
   \<and> (\<exists>kvs' ds m. exec_step (\<lambda>c. []) sales_engine (Sort None ''descending'')
           (Keyed ''Region'' [(Str ''North'', Num 120), (Str ''South'', Num 150)])
          = Inr (Continue (Keyed ''Region'' kvs'))
        \<and> mset kvs' = mset [(Str ''North'', Num 120), (Str ''South'', Num 150)]
        \<and> map snd kvs' = map Num ds @ replicate m Null \<and> sorted (rev ds))
   \<and> (\<exists>rs ds m. exec_step (\<lambda>c. []) sales_engine (Sort (Some ''sales'') ''descending'') (Rows sales_frame)
          = Inr (Continue (Rows (sales_frame\<lparr>rows := rs\<rparr>)))
        \<and> mset rs = mset (rows sales_frame)
        \<and> map (\<lambda>r. cell_at r 1) rs = map Num ds @ replicate m Null \<and> sorted (rev ds))"
proof -
  have h1: "''descending'' \<noteq> ''asc''" by simp
  have h2: "list_all (\<lambda>kv. \<not> is_Str (snd kv)) [(Str ''North'', Num 120), (Str ''South'', Num 150)]"
    by simp
  have h3: "map_of (schema sales_engine) ''sales'' = Some ''Sales''"
    by (simp add: sales_engine_def)
  have h4: "index_of ''Sales'' (columns sales_frame) = Some 1"
    by (simp add: sales_frame_def)
  have h5: "list_all (\<lambda>r. \<not> is_Str (cell_at r 1)) (rows sales_frame)"
    by (simp add: sales_frame_def cell_at_def)
  have d: "exec_step (\<lambda>c. []) sales_engine (Sort None ''desc'')
        (Keyed ''Region'' [(Str ''North'', Num 120), (Str ''South'', Num 150)])
       = Inr (Continue (Keyed ''Region'' [(Str ''South'', Num 150), (Str ''North'', Num 120)]))"
    by (simp add: sort_values_def order_by_def)
  note t = sort_order_other_than_asc_is_descending [OF h1, of "\<lambda>c. []" sales_engine None
      "Keyed ''Region'' [(Str ''North'', Num 120), (Str ''South'', Num 150)]"
      "[(Str ''North'', Num 120), (Str ''South'', Num 150)]" "''Region''"
      "''sales''" "''Sales''" sales_frame 1]
  from t d have c1: "exec_step (\<lambda>c. []) sales_engine (Sort None ''descending'')
        (Keyed ''Region'' [(Str ''North'', Num 120), (Str ''South'', Num 150)])
       = Inr (Continue (Keyed ''Region'' [(Str ''South'', Num 150), (Str ''North'', Num 120)]))"
    by (simp only:)
  from t h2 have c2: "\<exists>kvs' ds m. exec_step (\<lambda>c. []) sales_engine (Sort None ''descending'')
           (Keyed ''Region'' [(Str ''North'', Num 120), (Str ''South'', Num 150)])
          = Inr (Continue (Keyed ''Region'' kvs'))
        \<and> mset kvs' = mset [(Str ''North'', Num 120), (Str ''South'', Num 150)]
        \<and> map snd kvs' = map Num ds @ replicate m Null \<and> sorted (rev ds)"
    by blast
  from t h3 h4 h5 have c3: "\<exists>rs ds m. exec_step (\<lambda>c. []) sales_engine (Sort (Some ''sales'') ''descending'') (Rows sales_frame)
          = Inr (Continue (Rows (sales_frame\<lparr>rows := rs\<rparr>)))
        \<and> mset rs = mset (rows sales_frame)
        \<and> map (\<lambda>r. cell_at r 1) rs = map Num ds @ replicate m Null \<and> sorted (rev ds)"
    by blast
  from h1 h2 h3 h4 h5 c1 c2 c3 show ?thesis by blast
qed

section \<open>Properties of the vector store\<close>

text \<open>
  Claim C6: with \<open>k\<close> greater than the number of stored pairs, \<^verbatim>\<open>search\<close> returns exactly
  the stored texts, each once. The code does not: faiss fills the missing labels with
  \<open>-1\<close>, and \<^verbatim>\<open>self.texts[-1]\<close> is the last text. A store of two texts searched with the
  default \<open>k = 5\<close> returns five texts, the two stored ones by distance and then the last
  text three more times.
\<close>

theorem search_pads_with_last_text:
  "new_vectorstore [[0, 0], [3, 4]] [''a'', ''b''] = Inr two_store
   \<and> search two_store [3, 3] 5 = Inr [''b'', ''a'', ''b'', ''b'', ''b'']"
  by (simp add: new_vectorstore_def two_store_def search_def index_search_def l2sq_def
      list_getitem_def upt_rec numeral_nat in_float32_range_def exact_l2_def int_coord_def
      float32_0 float32_3 float32_4)

text \<open>
  Claim C9, as stated: a vector store can be constructed from no embeddings and no
  texts. The constructor reads \<^verbatim>\<open>embeddings[0]\<close> for the dimension and raises IndexError.
\<close>

theorem empty_vectorstore_counterexample:
  "new_vectorstore [] [] = Inl IndexError"
  by (simp add: new_vectorstore_def)

text \<open>
  Claim C9, amended: constructing a vector store from an empty sequence of embeddings
  fails with IndexError; from a non-empty sequence of embeddings of one common
  non-zero length, each coordinate within the range of float32, it succeeds, and the
  store holds the given texts and the embeddings cast to float32 (a coordinate such
  as \<open>1 / 10\<close> is stored as the nearest float32, \<open>13421773 / 134217728\<close>).
\<close>

theorem new_vectorstore_needs_first_embedding:
  assumes "e \<noteq> []" and "list_all (\<lambda>v. length v = length e) es"
    and "list_all (list_all in_float32_range) (e # es)"
  shows "new_vectorstore [] txts = Inl IndexError
       \<and> new_vectorstore (e # es) txts
           = Inr \<lparr>texts = txts, dim = length e, vectors = map (map float32) (e # es)\<rparr>"
  using assms by (simp add: new_vectorstore_def)

theorem new_vectorstore_needs_first_embedding_witness:
  "[1 / 10, 0] \<noteq> ([] :: rat list)
   \<and> list_all (\<lambda>v. length v = length [1 / 10, 0 :: rat]) [[3, 4]]
   \<and> list_all (list_all in_float32_range) ([1 / 10, 0] # [[3, 4]])
   \<and> new_vectorstore [] [''a'', ''b''] = Inl IndexError
   \<and> new_vectorstore [[1 / 10, 0], [3, 4]] [''a'', ''b'']
       = Inr \<lparr>texts = [''a'', ''b''], dim = 2,
              vectors = [[13421773 / 134217728, 0], [3, 4]]\<rparr>"
proof -
  have h1: "[1 / 10, 0] \<noteq> ([] :: rat list)" by simp
  have h2: "list_all (\<lambda>v. length v = length [1 / 10, 0 :: rat]) [[3, 4]]" by simp
  have h3: "list_all (list_all in_float32_range) ([1 / 10, 0] # [[3, 4]])"
    by (simp add: in_float32_range_def float32_1_10 float32_0 float32_3 float32_4)
  from new_vectorstore_needs_first_embedding [OF h1 h2 h3, of "[''a'', ''b'']"] h1 h2 h3
  show ?thesis by (simp add: float32_1_10 float32_0 float32_3 float32_4)
qed

section \<open>Properties of the planner\<close>

lemma remove_all_no_last:
  "old \<noteq> [] \<Longrightarrow> last old \<notin> set s \<Longrightarrow> remove_all old s = s"
proof (induction s)
  case Nil
  then show ?case by simp
next
  case (Cons c cs)
  have "\<not> prefix old (c # cs)"
  proof
    assume "prefix old (c # cs)"
    then have "set old \<subseteq> set (c # cs)" by (rule set_mono_prefix)
    with Cons.prems show False by (meson last_in_set subsetD)
  qed
  with Cons show ?case by simp
qed

lemma remove_all_suffix:
  "old \<noteq> [] \<Longrightarrow> last old \<notin> set sfx \<Longrightarrow> remove_all old (xs @ sfx) = remove_all old xs @ sfx"
proof (induction old xs rule: remove_all.induct)
  case (1 old)
  then show ?case by (simp add: remove_all_no_last)
next
  case (2 old c cs)
  have iff: "prefix old ((c # cs) @ sfx) \<longleftrightarrow> prefix old (c # cs)"
  proof
    assume "prefix old ((c # cs) @ sfx)"
    then consider "prefix old (c # cs)" | us where "old = (c # cs) @ us" "prefix us sfx"
      using prefix_append [of old "c # cs" sfx] by blast
    then show "prefix old (c # cs)"
    proof cases
      case 1
      then show ?thesis .
    next
      case 2
      show ?thesis
      proof (cases "us = []")
        case True
        with 2 show ?thesis by simp
      next
        case False
        with 2 have "last old = last us" by simp
        moreover from False 2 have "last us \<in> set sfx"
          by (meson last_in_set set_mono_prefix subsetD)
        ultimately show ?thesis using "2.prems" by simp
      qed
    qed
  next
    assume "prefix old (c # cs)"
    then show "prefix old ((c # cs) @ sfx)" by (rule prefix_prefix)
  qed
  show ?case
  proof (cases "prefix old (c # cs)")
    case True
    then have len: "length old \<le> length (c # cs)" by (rule prefix_length_le)
    have "remove_all old ((c # cs) @ sfx) = remove_all old (drop (length old) ((c # cs) @ sfx))"
      using True iff "2.prems" by simp
    also have "\<dots> = remove_all old (drop (length old) (c # cs) @ sfx)"
      unfolding drop_append using len by simp
    also have "\<dots> = remove_all old (drop (length old) (c # cs)) @ sfx"
      using "2.IH"(1) True "2.prems" by simp
    also have "\<dots> = remove_all old (c # cs) @ sfx"
      using True "2.prems" by simp
    finally show ?thesis .
  next
    case False
    with iff "2.prems" "2.IH"(2) show ?thesis by simp
  qed
qed

lemma remove_all_prefix:
  "old \<noteq> [] \<Longrightarrow> hd old \<notin> set pfx \<Longrightarrow> remove_all old (pfx @ xs) = pfx @ remove_all old xs"
proof (induction pfx)
  case Nil
  then show ?case by simp
next
  case (Cons p pfx)
  have "\<not> prefix old (p # pfx @ xs)"
  proof
    assume "prefix old (p # pfx @ xs)"
    with Cons.prems(1) have "hd old = p" by (cases old) auto
    with Cons.prems(2) show False by simp
  qed
  with Cons show ?case by simp
qed

lemma remove_all_fence_end_aux:
  "old = fence \<Longrightarrow> remove_all old (ys @ old) = remove_all old ys"
proof (induction old ys rule: remove_all.induct)
  case (1 old)
  then show ?case by (simp add: fence_def)
next
  case (2 old c cs)
  have ne: "old \<noteq> []" using "2.prems" by (simp add: fence_def)
  show ?case
  proof (cases "prefix old (c # cs)")
    case True
    then have len: "length old \<le> length (c # cs)" by (rule prefix_length_le)
    have pre: "prefix old ((c # cs) @ old)" using True by (rule prefix_prefix)
    have "remove_all old ((c # cs) @ old) = remove_all old (drop (length old) ((c # cs) @ old))"
      using pre ne by simp
    also have "\<dots> = remove_all old (drop (length old) (c # cs) @ old)"
      unfolding drop_append using len by simp
    also have "\<dots> = remove_all old (drop (length old) (c # cs))"
      using "2.IH"(1) True ne "2.prems" by simp
    also have "\<dots> = remove_all old (c # cs)"
      using True ne by simp
    finally show ?thesis .
  next
    case False
    show ?thesis
    proof (cases "prefix old ((c # cs) @ old)")
      case True
      with False obtain us where us: "old = (c # cs) @ us"
        using prefix_append [of old "c # cs" old] by blast
      with False have "us \<noteq> []" by auto
      with us "2.prems" have "c # cs = ''`'' \<or> c # cs = ''``''"
        by (auto simp: fence_def Cons_eq_append_conv)
      then show ?thesis
        using "2.prems" by (auto simp: fence_def)
    next
      case False2: False
      with False "2.IH"(2) "2.prems" show ?thesis by simp
    qed
  qed
qed

lemma remove_all_fence_end: "remove_all fence (ys @ fence) = remove_all fence ys"
  by (rule remove_all_fence_end_aux) simp

lemma strip_chars_lead:
  assumes "\<forall>c \<in> set ws. P c"
  shows "strip_chars P (ws @ s) = strip_chars P s"
proof (cases "\<forall>c \<in> set s. P c")
  case True
  with assms have e: "dropWhile P (rev s @ rev ws) = []" "dropWhile P (rev s) = []"
    by (auto simp: dropWhile_eq_Nil_conv)
  show ?thesis by (simp only: strip_chars_def rev_append e)
next
  case False
  then obtain x where "x \<in> set (rev s)" "\<not> P x" by auto
  then have "dropWhile P (rev s @ rev ws) = dropWhile P (rev s) @ rev ws"
    by (rule dropWhile_append1)
  with assms show ?thesis by (simp add: strip_chars_def)
qed

lemma strip_chars_trail:
  assumes "\<forall>c \<in> set ws. P c"
  shows "strip_chars P (s @ ws) = strip_chars P s"
proof -
  have "dropWhile P (rev ws @ rev s) = dropWhile P (rev s)"
    by (rule dropWhile_append2) (use assms in auto)
  then show ?thesis by (simp add: strip_chars_def)
qed

lemma strip_chars_decompose:
  "\<exists>lead trail. s = lead @ strip_chars P s @ trail \<and> (\<forall>c \<in> set lead. P c) \<and> (\<forall>c \<in> set trail. P c)"
proof -
  let ?t = "rev (dropWhile P (rev s))"
  have s: "s = ?t @ rev (takeWhile P (rev s))"
    by (metis rev_append rev_rev_ident takeWhile_dropWhile_id)
  have t: "?t = takeWhile P ?t @ strip_chars P s" by (simp add: strip_chars_def)
  have "s = takeWhile P ?t @ strip_chars P s @ rev (takeWhile P (rev s))"
    using s t by (metis append.assoc)
  moreover have "\<forall>c \<in> set (takeWhile P ?t). P c" by (auto dest: set_takeWhileD)
  moreover have "\<forall>c \<in> set (rev (takeWhile P (rev s))). P c" by (auto dest: set_takeWhileD)
  ultimately show ?thesis by blast
qed

lemma strip_unchanged:
  "s \<noteq> [] \<Longrightarrow> \<not> P (hd s) \<Longrightarrow> \<not> P (last s) \<Longrightarrow> strip_chars P s = s"
proof -
  assume a: "s \<noteq> []" "\<not> P (hd s)" "\<not> P (last s)"
  then have "dropWhile P (rev s) = rev s"
    by (cases "rev s") (auto simp: hd_rev [symmetric])
  moreover have "dropWhile P s = s"
    using a by (cases s) auto
  ultimately show ?thesis by (simp add: strip_chars_def)
qed

lemma remove_all_self_prefix: "old \<noteq> [] \<Longrightarrow> remove_all old (old @ xs) = remove_all old xs"
  by (cases old) auto

lemma space_free:
  "list_all is_space ws \<Longrightarrow> CHR ''`'' \<notin> set ws \<and> CHR ''n'' \<notin> set ws"
  by (auto simp: list_all_iff is_space_def)

lemma remove_fences_padded:
  assumes "list_all is_space lead" "list_all is_space trail"
  shows "remove_all fence (remove_all (fence @ ''json'') (lead @ s @ trail))
           = lead @ remove_all fence (remove_all (fence @ ''json'') s) @ trail"
proof -
  let ?FJ = "fence @ ''json''"
  have ne: "?FJ \<noteq> []" "fence \<noteq> []" by (simp_all add: fence_def)
  have hd: "hd ?FJ = CHR ''`''" "hd fence = CHR ''`''" by (simp_all add: fence_def)
  have lst: "last ?FJ = CHR ''n''" "last fence = CHR ''`''" by (simp_all add: fence_def)
  have "remove_all ?FJ (lead @ s @ trail) = lead @ remove_all ?FJ (s @ trail)"
    using remove_all_prefix [OF ne(1)] hd(1) space_free [OF assms(1)] by simp
  also have "\<dots> = lead @ remove_all ?FJ s @ trail"
    using remove_all_suffix [OF ne(1)] lst(1) space_free [OF assms(2)] by simp
  finally have a: "remove_all ?FJ (lead @ s @ trail) = lead @ remove_all ?FJ s @ trail" .
  have "remove_all fence (lead @ remove_all ?FJ s @ trail)
          = lead @ remove_all fence (remove_all ?FJ s @ trail)"
    using remove_all_prefix [OF ne(2)] hd(2) space_free [OF assms(1)] by simp
  also have "\<dots> = lead @ remove_all fence (remove_all ?FJ s) @ trail"
    using remove_all_suffix [OF ne(2)] lst(2) space_free [OF assms(2)] by simp
  finally show ?thesis using a by simp
qed

lemma clean_response_padded:
  assumes "list_all is_space lead" "list_all is_space trail"
  shows "strip (remove_all fence (remove_all (fence @ ''json'') (lead @ s @ trail)))
           = strip (remove_all fence (remove_all (fence @ ''json'') s))"
  using assms
  by (simp add: remove_fences_padded strip_def strip_chars_lead strip_chars_trail list_all_iff)

lemma clean_response_strip:
  "strip (remove_all fence (remove_all (fence @ ''json'') s)) = clean_response s"
proof -
  obtain lead trail where d: "s = lead @ strip s @ trail"
      "\<forall>c \<in> set lead. is_space c" "\<forall>c \<in> set trail. is_space c"
    using strip_chars_decompose [of s is_space] by (auto simp: strip_def)
  then have "list_all is_space lead" "list_all is_space trail"
    by (simp_all add: list_all_iff)
  from clean_response_padded [OF this, of "strip s"] d(1) show ?thesis
    by (simp add: clean_response_def)
qed

lemma clean_response_fenced:
  assumes "list_all is_space pre" "list_all is_space post"
  shows "clean_response (''```json'' @ pre @ response @ post @ ''```'') = clean_response response"
proof -
  let ?FJ = "fence @ ''json''"
  let ?w = "?FJ @ pre @ response @ post @ fence"
  have w: "''```json'' @ pre @ response @ post @ ''```'' = ?w" by (simp add: fence_def)
  have ne: "?FJ \<noteq> []" by (simp add: fence_def)
  have "strip ?w = ?w"
    unfolding strip_def by (rule strip_unchanged) (simp_all add: fence_def is_space_def)
  then have "clean_response ?w = strip (remove_all fence (remove_all ?FJ ?w))"
    by (simp add: clean_response_def)
  also have "remove_all ?FJ ?w = remove_all ?FJ (pre @ response @ post @ fence)"
    using remove_all_self_prefix [OF ne] by simp
  also have "\<dots> = pre @ remove_all ?FJ response @ post @ fence"
  proof -
    have "CHR ''n'' \<notin> set (post @ fence)"
      using space_free [OF assms(2)] by (simp add: fence_def)
    then have "remove_all ?FJ (response @ post @ fence) = remove_all ?FJ response @ post @ fence"
      using remove_all_suffix [OF ne, of "post @ fence" response] by (simp add: fence_def)
    then show ?thesis
      using remove_all_prefix [OF ne, of pre] space_free [OF assms(1)] by (simp add: fence_def)
  qed
  also have "remove_all fence (pre @ remove_all ?FJ response @ post @ fence)
      = pre @ remove_all fence (remove_all ?FJ response) @ post"
  proof -
    have nf: "fence \<noteq> []" by (simp add: fence_def)
    have "remove_all fence ((remove_all ?FJ response @ post) @ fence)
            = remove_all fence (remove_all ?FJ response @ post)"
      by (rule remove_all_fence_end)
    also have "\<dots> = remove_all fence (remove_all ?FJ response) @ post"
      using remove_all_suffix [OF nf, of post] space_free [OF assms(2)] by (simp add: fence_def)
    finally have "remove_all fence (remove_all ?FJ response @ post @ fence)
            = remove_all fence (remove_all ?FJ response) @ post" by simp
    then show ?thesis
      using remove_all_prefix [OF nf, of pre] space_free [OF assms(1)] by (simp add: fence_def)
  qed
  also have "strip (pre @ remove_all fence (remove_all ?FJ response) @ post)
      = strip (remove_all fence (remove_all ?FJ response))"
    using assms by (simp add: strip_def strip_chars_lead strip_chars_trail list_all_iff)
  also have "\<dots> = clean_response response" by (rule clean_response_strip)
  finally show ?thesis using w by simp
qed

text \<open>
  Claim C7. A response wrapped in a \<^verbatim>\<open>```json\<close> fence and a closing \<^verbatim>\<open>```\<close> fence, with any
  whitespace (or none) between the fences and the response, is parsed to the same plan
  as the response itself; and a response that \<^verbatim>\<open>json.loads\<close> rejects after cleaning
  yields the plan \<^verbatim>\<open>{"type": "explain"}\<close>, the object with the one key \<open>type\<close> and the string
  \<open>explain\<close>, as a value and not as an exception.
\<close>

theorem fenced_response_parses_alike:
  assumes "list_all is_space pre" and "list_all is_space post"
  shows "parse_plan json_loads (''```json'' @ pre @ response @ post @ ''```'')
           = parse_plan json_loads response
       \<and> (json_loads (clean_response response) = None
            \<longrightarrow> parse_plan json_loads response = JObj [(''type'', JStr ''explain'')])"
  using clean_response_fenced [OF assms] by (simp add: parse_plan_def)

theorem fenced_response_parses_alike_witness:
  "list_all is_space [CHR 0x0A]
   \<and> parse_plan (\<lambda>s. if s = ''null'' then Some JNull else None)
        (''```json'' @ [CHR 0x0A] @ ''null'' @ [CHR 0x0A] @ ''```'') = JNull
   \<and> (\<lambda>s. if s = ''null'' then Some JNull else None) (clean_response ''not json'') = None
   \<and> parse_plan (\<lambda>s. if s = ''null'' then Some JNull else None) ''not json''
       = JObj [(''type'', JStr ''explain'')]"
proof -
  have h: "list_all is_space [CHR 0x0A]" by (simp add: is_space_def)
  have c1: "clean_response ''null'' = ''null''"
    by (simp add: clean_response_def strip_def strip_chars_def is_space_def fence_def)
  have c2: "clean_response ''not json'' = ''not json''"
    by (simp add: clean_response_def strip_def strip_chars_def is_space_def fence_def)
  have p: "parse_plan (\<lambda>s. if s = ''null'' then Some JNull else None) ''null'' = JNull"
    by (simp add: parse_plan_def c1)
  from fenced_response_parses_alike [OF h h, of "\<lambda>s. if s = ''null'' then Some JNull else None" "''null''"]
       fenced_response_parses_alike [OF h h, of "\<lambda>s. if s = ''null'' then Some JNull else None" "''not json''"]
       h c2 p
  show ?thesis by simp
qed

section \<open>Properties of the dataset state\<close>

text \<open>
  Claim C8. When the upload directory holds no candidate file, \<^verbatim>\<open>initialize_rag_system\<close>
  returns failure and the state is what it was, in every field, whether or not a
  rebuild is forced; in particular for a state that is ready.
\<close>

theorem initialize_without_files:
  assumes "upload_files env = []"
  shows "initialize_rag_system env force_rebuild st = (False, st)"
  using assms by (simp add: initialize_rag_system_def)

theorem initialize_without_files_witness:
  "upload_files empty_uploads = []
   \<and> is_initialized ready_state
   \<and> initialize_rag_system empty_uploads True ready_state = (False, ready_state)
   \<and> initialize_rag_system empty_uploads False ready_state = (False, ready_state)"
proof -
  have h: "upload_files empty_uploads = []" by (simp add: empty_uploads_def)
  have r: "is_initialized ready_state" by (simp add: is_initialized_def ready_state_def)
  from initialize_without_files [OF h, of True ready_state]
       initialize_without_files [OF h, of False ready_state] h r
  show ?thesis by simp
qed

end
